theory Spec2Isabelle
  imports Complex_Main
begin

section \<open>Configuration\<close>

text \<open>
  The game of \<^verbatim>\<open>src/App.js\<close> is one React component. Its numbers are JavaScript
  numbers; they are modelled as mathematical reals (the specification's ``real number''),
  so rounding of IEEE doubles is not part of this development. The score and the best
  score start at 0 and are only ever incremented or copied, so they are natural numbers.

  The window size comes from the platform (\<^verbatim>\<open>Dimensions.get("window")\<close>) and is a
  parameter of everything below.
\<close>

record window =
  SCREEN_WIDTH :: real
  SCREEN_HEIGHT :: real

definition BIRD_SIZE :: real where
  "BIRD_SIZE = 40"

definition BIRD_X :: "window \<Rightarrow> real" where
  "BIRD_X d = SCREEN_WIDTH d * 0.25"

definition GRAVITY :: real where
  "GRAVITY = 0.6"

definition JUMP_VELOCITY :: real where
  "JUMP_VELOCITY = - 10.5"

definition PIPE_WIDTH :: real where
  "PIPE_WIDTH = 70"

definition PIPE_GAP :: real where
  "PIPE_GAP = 170"

definition PIPE_SPEED :: real where
  "PIPE_SPEED = 3.2"

text \<open>
  \<^verbatim>\<open>randomTopHeight()\<close> with the outcome \<open>r\<close> of its one call of
  \<^verbatim>\<open>Math.random()\<close> as an argument.
\<close>

definition randomTopHeight :: "window \<Rightarrow> real \<Rightarrow> real" where
  "randomTopHeight d r =
     (let minTop = 60;
          maxTop = SCREEN_HEIGHT d - 200
      in real_of_int \<lfloor>r * (maxTop - minTop)\<rfloor> + minTop)"

section \<open>Data\<close>

text \<open>
  A pipe is the object \<^verbatim>\<open>{ x, topHeight, scored }\<close>; its field \<^verbatim>\<open>x\<close> is called
  \<open>pipe_x\<close> here, so that \<open>x\<close> stays free for variables.
\<close>

record pipe =
  pipe_x :: real
  topHeight :: real
  scored :: bool

record rect =
  x1 :: real
  y1 :: real
  x2 :: real
  y2 :: real

text \<open>
  The state of the component after React has rendered and run its effects:
  the four \<^verbatim>\<open>useState\<close> cells, the two refs of the bird, the pipes, and the interval
  handle \<^verbatim>\<open>loopRef\<close>.

  The interval callback is created by the effect with dependencies \<^verbatim>\<open>[running]\<close>, so
  it is the closure of the render in which \<^verbatim>\<open>running\<close> became true, and the
  \<^verbatim>\<open>triggerGameOver\<close> it calls is that render's
  \<^verbatim>\<open>useCallback(..., [score])\<close>, which reads that render's \<^verbatim>\<open>score\<close>. The handle
  therefore carries the score its callback has captured: \<open>loopRef = Some s\<close> is an
  installed interval whose \<^verbatim>\<open>triggerGameOver\<close> sees \<open>score = s\<close>, and
  \<open>loopRef = None\<close> is \<^verbatim>\<open>loopRef.current === null\<close>.

  \<open>draws\<close> counts the calls of \<^verbatim>\<open>Math.random()\<close> made so far; the \<open>n\<close>-th call
  returns \<open>rnd n\<close> for a sequence \<open>rnd\<close> that is a parameter.
\<close>

record game =
  running :: bool
  gameOver :: bool
  score :: nat
  best :: nat
  birdY :: real
  birdV :: real
  pipes :: "pipe list"
  loopRef :: "nat option"
  draws :: nat

section \<open>Operations\<close>

text \<open>The initialiser of the pipes, shared by \<^verbatim>\<open>useState\<close> and \<^verbatim>\<open>resetGame\<close>.\<close>

definition startPipes :: "window \<Rightarrow> (nat \<Rightarrow> real) \<Rightarrow> nat \<Rightarrow> pipe list" where
  "startPipes d rnd n =
     (let startX1 = SCREEN_WIDTH d + 100;
          startX2 = startX1 + SCREEN_WIDTH d * 0.6
      in [\<lparr>pipe_x = startX1, topHeight = randomTopHeight d (rnd n), scored = False\<rparr>,
          \<lparr>pipe_x = startX2, topHeight = randomTopHeight d (rnd (n + 1)), scored = False\<rparr>])"

text \<open>The first render of \<^verbatim>\<open>App\<close>.\<close>

definition mount :: "window \<Rightarrow> (nat \<Rightarrow> real) \<Rightarrow> game" where
  "mount d rnd =
     \<lparr>running = False, gameOver = False, score = 0, best = 0,
      birdY = SCREEN_HEIGHT d * 0.45, birdV = 0,
      pipes = startPipes d rnd 0, loopRef = None, draws = 2\<rparr>"

text \<open>
  \<^verbatim>\<open>resetGame\<close>. \<^verbatim>\<open>setRunning(false)\<close> makes the effect's cleanup clear an interval
  that is still installed.
\<close>

definition resetGame :: "window \<Rightarrow> (nat \<Rightarrow> real) \<Rightarrow> game \<Rightarrow> game" where
  "resetGame d rnd st =
     st\<lparr>running := False, gameOver := False, score := 0,
        birdY := SCREEN_HEIGHT d * 0.45, birdV := 0,
        pipes := startPipes d rnd (draws st), loopRef := None,
        draws := draws st + 2\<rparr>"

text \<open>
  \<^verbatim>\<open>startIfNeeded\<close>. When it sets \<^verbatim>\<open>running\<close>, the effect installs the interval in
  the render that follows, whose \<^verbatim>\<open>score\<close> is the current one.
\<close>

definition startIfNeeded :: "game \<Rightarrow> game" where
  "startIfNeeded st =
     (let st1 = (if \<not> running st \<and> \<not> gameOver st
                 then st\<lparr>running := True, loopRef := Some (score st)\<rparr>
                 else st)
      in st1\<lparr>birdV := JUMP_VELOCITY\<rparr>)"

text \<open>\<^verbatim>\<open>triggerGameOver\<close> of a render whose score is \<open>s\<close>.\<close>

definition triggerGameOver :: "nat \<Rightarrow> game \<Rightarrow> game" where
  "triggerGameOver s st =
     st\<lparr>loopRef := None, gameOver := True, running := False,
        best := (if s > best st then s else best st)\<rparr>"

definition intersects :: "rect \<Rightarrow> rect \<Rightarrow> bool" where
  "intersects r s \<longleftrightarrow> \<not> (x2 r < x1 s \<or> x1 r > x2 s \<or> y2 r < y1 s \<or> y1 r > y2 s)"

text \<open>
  The loop \<^verbatim>\<open>for (let p of updated)\<close> of the first \<^verbatim>\<open>setPipes\<close>: a pipe that has left
  the screen gets two fresh random numbers, first for its position, then for its height.
  The second argument is the number of draws made before the loop, the second result the
  number after it.
\<close>

fun recycle :: "window \<Rightarrow> (nat \<Rightarrow> real) \<Rightarrow> pipe list \<Rightarrow> nat \<Rightarrow> pipe list \<times> nat" where
  "recycle d rnd [] n = ([], n)"
| "recycle d rnd (p # ps) n =
     (if pipe_x p + PIPE_WIDTH < 0
      then (let p' = p\<lparr>pipe_x := SCREEN_WIDTH d + rnd n * 120 + 60,
                        topHeight := randomTopHeight d (rnd (n + 1)),
                        scored := False\<rparr>;
                (ps', n') = recycle d rnd ps (n + 2)
            in (p' # ps', n'))
      else (let (ps', n') = recycle d rnd ps n
            in (p # ps', n')))"

text \<open>The first \<^verbatim>\<open>setPipes\<close> updater: move, then recycle.\<close>

definition advance :: "window \<Rightarrow> (nat \<Rightarrow> real) \<Rightarrow> pipe list \<Rightarrow> nat \<Rightarrow> pipe list \<times> nat" where
  "advance d rnd prev n =
     (let updated = map (\<lambda>p. p\<lparr>pipe_x := pipe_x p - PIPE_SPEED\<rparr>) prev
      in recycle d rnd updated n)"

text \<open>
  The rectangles and the centre that the callback of the second \<^verbatim>\<open>setPipes\<close> updater
  builds for a pipe \<open>p\<close>; \<open>y\<close> is \<^verbatim>\<open>birdY.current\<close>.
\<close>

definition birdRect :: "window \<Rightarrow> real \<Rightarrow> rect" where
  "birdRect d y = \<lparr>x1 = BIRD_X d, y1 = y, x2 = BIRD_X d + BIRD_SIZE, y2 = y + BIRD_SIZE\<rparr>"

definition topPipe :: "pipe \<Rightarrow> rect" where
  "topPipe p = \<lparr>x1 = pipe_x p, y1 = 0, x2 = pipe_x p + PIPE_WIDTH, y2 = topHeight p\<rparr>"

definition bottomPipe :: "window \<Rightarrow> pipe \<Rightarrow> rect" where
  "bottomPipe d p =
     \<lparr>x1 = pipe_x p, y1 = topHeight p + PIPE_GAP,
      x2 = pipe_x p + PIPE_WIDTH, y2 = SCREEN_HEIGHT d\<rparr>"

definition birdCenterX :: "window \<Rightarrow> real" where
  "birdCenterX d = BIRD_X d + BIRD_SIZE / 2"

text \<open>
  The \<^verbatim>\<open>prev.map\<close> of the second \<^verbatim>\<open>setPipes\<close> updater, with its two accumulators
  \<^verbatim>\<open>collided\<close> and \<^verbatim>\<open>gained\<close>.
\<close>

fun collisionPass ::
  "window \<Rightarrow> real \<Rightarrow> pipe list \<Rightarrow> bool \<Rightarrow> nat \<Rightarrow> pipe list \<times> bool \<times> nat" where
  "collisionPass d y [] collided gained = ([], collided, gained)"
| "collisionPass d y (p # ps) collided gained =
     (let collided' = (if intersects (birdRect d y) (topPipe p) \<or>
                          intersects (birdRect d y) (bottomPipe d p)
                       then True else collided)
      in if \<not> scored p \<and> birdCenterX d > pipe_x p + PIPE_WIDTH
         then (let (newArr, c, g) = collisionPass d y ps collided' (gained + 1)
               in (p\<lparr>scored := True\<rparr> # newArr, c, g))
         else (let (newArr, c, g) = collisionPass d y ps collided' gained
               in (p # newArr, c, g)))"

text \<open>
  One firing of the interval callback whose \<^verbatim>\<open>triggerGameOver\<close> has captured the
  score \<open>s\<close>: physics, the two limits (two separate \<^verbatim>\<open>if\<close> statements, the second
  with an early return), then the two \<^verbatim>\<open>setPipes\<close> updaters in order.
\<close>

definition tick :: "window \<Rightarrow> (nat \<Rightarrow> real) \<Rightarrow> nat \<Rightarrow> game \<Rightarrow> game" where
  "tick d rnd s st =
     (let v = birdV st + GRAVITY;
          y = birdY st + v;
          y = (if y < 0 then 0 else y)
      in if y + BIRD_SIZE > SCREEN_HEIGHT d
         then triggerGameOver s (st\<lparr>birdV := v, birdY := SCREEN_HEIGHT d - BIRD_SIZE\<rparr>)
         else (let (moved, n) = advance d rnd (pipes st) (draws st);
                   (newArr, collided, gained) = collisionPass d y moved False 0;
                   st1 = st\<lparr>birdV := v, birdY := y, pipes := newArr, draws := n,
                            score := (if gained > 0 then score st + gained else score st)\<rparr>
               in if collided then triggerGameOver s st1 else st1))"

text \<open>
  What can happen to the component: a press on the screen, a press on the retry button
  (rendered only while \<^verbatim>\<open>gameOver\<close>), and a firing of the interval (only while one is
  installed).
\<close>

datatype event = Tap | Reset | Tick

fun fire :: "window \<Rightarrow> (nat \<Rightarrow> real) \<Rightarrow> game \<Rightarrow> event \<Rightarrow> game" where
  "fire d rnd st Tap = startIfNeeded st"
| "fire d rnd st Reset = (if gameOver st then resetGame d rnd st else st)"
| "fire d rnd st Tick = (case loopRef st of None \<Rightarrow> st | Some s \<Rightarrow> tick d rnd s st)"

definition run :: "window \<Rightarrow> (nat \<Rightarrow> real) \<Rightarrow> event list \<Rightarrow> game" where
  "run d rnd es = foldl (fire d rnd) (mount d rnd) es"

section \<open>Vocabulary of the specification\<close>

text \<open>
  The words of the specification's rectangle contract: a rectangle is well formed when
  \<open>x1 \<le> x2\<close> and \<open>y1 \<le> y2\<close>; one rectangle is strictly left of, right of, above or
  below another (the \<open>y\<close> axis points down); a point lies in a rectangle, edges included.
\<close>

definition wellFormed :: "rect \<Rightarrow> bool" where
  "wellFormed r \<longleftrightarrow> x1 r \<le> x2 r \<and> y1 r \<le> y2 r"

definition strictlyLeftOf :: "rect \<Rightarrow> rect \<Rightarrow> bool" where
  "strictlyLeftOf r s \<longleftrightarrow> x2 r < x1 s"

definition strictlyRightOf :: "rect \<Rightarrow> rect \<Rightarrow> bool" where
  "strictlyRightOf r s \<longleftrightarrow> x2 s < x1 r"

definition strictlyAbove :: "rect \<Rightarrow> rect \<Rightarrow> bool" where
  "strictlyAbove r s \<longleftrightarrow> y2 r < y1 s"

definition strictlyBelow :: "rect \<Rightarrow> rect \<Rightarrow> bool" where
  "strictlyBelow r s \<longleftrightarrow> y2 s < y1 r"

definition covers :: "rect \<Rightarrow> real \<Rightarrow> real \<Rightarrow> bool" where
  "covers r px py \<longleftrightarrow> x1 r \<le> px \<and> px \<le> x2 r \<and> y1 r \<le> py \<and> py \<le> y2 r"

text \<open>
  The words of the simulation step. The bird's centre has passed a pipe's right edge; a
  pipe is due to score when it has not scored yet and has been passed; the bird at height
  \<open>y\<close> hits a pipe when its rectangle meets one of the pipe's two blocks; the position
  after the physics and the upper limit, and the test of the lower limit on it.
\<close>

definition passed :: "window \<Rightarrow> pipe \<Rightarrow> bool" where
  "passed d p \<longleftrightarrow> birdCenterX d > pipe_x p + PIPE_WIDTH"

definition due :: "window \<Rightarrow> pipe \<Rightarrow> bool" where
  "due d p \<longleftrightarrow> \<not> scored p \<and> passed d p"

definition hits :: "window \<Rightarrow> real \<Rightarrow> pipe \<Rightarrow> bool" where
  "hits d y p \<longleftrightarrow>
     intersects (birdRect d y) (topPipe p) \<or> intersects (birdRect d y) (bottomPipe d p)"

definition integrated :: "game \<Rightarrow> real" where
  "integrated st = birdY st + (birdV st + GRAVITY)"

definition clampedY :: "game \<Rightarrow> real" where
  "clampedY st = (if integrated st < 0 then 0 else integrated st)"

definition floorHit :: "window \<Rightarrow> game \<Rightarrow> bool" where
  "floorHit d st \<longleftrightarrow> clampedY st + BIRD_SIZE > SCREEN_HEIGHT d"

text \<open>
  The state in which the two \<^verbatim>\<open>setPipes\<close> updaters leave the component when the lower
  limit was not reached, before a collision is acted upon (lemma \<open>tick_no_floor\<close> below
  derives it from \<open>tick\<close>).
\<close>

definition afterPasses :: "window \<Rightarrow> (nat \<Rightarrow> real) \<Rightarrow> game \<Rightarrow> game" where
  "afterPasses d rnd st =
     st\<lparr>birdV := birdV st + GRAVITY, birdY := clampedY st,
        pipes := map (\<lambda>p. p\<lparr>scored := scored p \<or> passed d p\<rparr>)
                   (fst (advance d rnd (pipes st) (draws st))),
        draws := snd (advance d rnd (pipes st) (draws st)),
        score := score st + length (filter (due d) (fst (advance d rnd (pipes st) (draws st))))\<rparr>"

text \<open>
  The range that \<^verbatim>\<open>randomTopHeight\<close> draws from is not empty; a pipe's height is an
  integer of that range, upper end included.
\<close>

definition inRange :: "window \<Rightarrow> pipe \<Rightarrow> bool" where
  "inRange d p \<longleftrightarrow>
     topHeight p \<in> \<int> \<and> 60 \<le> topHeight p \<and> topHeight p \<le> SCREEN_HEIGHT d - 200"

definition rangeNonEmpty :: "window \<Rightarrow> bool" where
  "rangeNonEmpty d \<longleftrightarrow> 60 < SCREEN_HEIGHT d - 200"

text \<open>\<^verbatim>\<open>Math.random()\<close> returns a number in \<open>[0, 1)\<close>.\<close>

definition unitInterval :: "(nat \<Rightarrow> real) \<Rightarrow> bool" where
  "unitInterval rnd \<longleftrightarrow> (\<forall>n. 0 \<le> rnd n \<and> rnd n < 1)"

section \<open>Concrete sessions\<close>

text \<open>
  A phone of 320 by 568 points, a window only 240 points high and one only 20 points
  high; a random source whose every draw is 0.3 (on the phone every pipe then has
  \<open>topHeight = 152\<close>) and one whose every draw is 0.5.
\<close>

definition phone :: window where
  "phone = \<lparr>SCREEN_WIDTH = 320, SCREEN_HEIGHT = 568\<rparr>"

definition lowWindow :: window where
  "lowWindow = \<lparr>SCREEN_WIDTH = 320, SCREEN_HEIGHT = 240\<rparr>"

definition tinyWindow :: window where
  "tinyWindow = \<lparr>SCREEN_WIDTH = 320, SCREEN_HEIGHT = 20\<rparr>"

definition rnd0 :: "nat \<Rightarrow> real" where
  "rnd0 = (\<lambda>n. 3 / 10)"

definition rndHalf :: "nat \<Rightarrow> real" where
  "rndHalf = (\<lambda>n. 1 / 2)"

text \<open>Two rectangles that share an edge, and two pipes of which the first is leaving.\<close>

definition leftBox :: rect where
  "leftBox = \<lparr>x1 = 0, y1 = 0, x2 = 10, y2 = 10\<rparr>"

definition rightBox :: rect where
  "rightBox = \<lparr>x1 = 10, y1 = 5, x2 = 20, y2 = 15\<rparr>"

definition exiting :: "pipe list" where
  "exiting = [\<lparr>pipe_x = - 68, topHeight = 200, scored = True\<rparr>,
              \<lparr>pipe_x = 124, topHeight = 300, scored = False\<rparr>]"

text \<open>
  Event sequences on the phone. A press followed by 34 ticks brings the bird back to the
  height of the press, 255.6, having risen to 168.9 in between; the first pipe overlaps
  the bird's column from tick 94 to tick 128 and is passed at tick 122.
  \<^item> \<open>crash\<close>: one press, then the bird falls to the floor at tick 52.
  \<^item> \<open>climb\<close>: two flaps, then a press before every tick, so that the bird is at 8.1
    with the first pipe about to arrive; the tick that follows takes it above the top.
  \<^item> \<open>beforeClip\<close>: the bird is at 159.3 and rising when tick 122 comes, in which it is
    at 150 and touches the upper block (down to 152) while the pipe is passed.
  \<^item> \<open>beforeCrash\<close>: four flaps carry the bird through the first pipe, which scores;
    with no further press the tick that follows, tick 154, reaches the floor.

  In all of them every comparison that the code makes is away from its boundary by 0.4 or
  more, so the rounding of doubles would not change their course.
\<close>

definition flap :: "event list" where
  "flap = Tap # replicate 34 Tick"

definition crash :: "event list" where
  "crash = Tap # replicate 52 Tick"

definition climb :: "event list" where
  "climb = flap @ flap @ concat (replicate 25 [Tap, Tick]) @ [Tap]"

definition beforeClip :: "event list" where
  "beforeClip = flap @ flap @ flap @ (Tap # replicate 18 Tick) @ [Tap, Tick]"

definition beforeCrash :: "event list" where
  "beforeCrash = flap @ flap @ flap @ flap @ replicate 17 Tick"

section \<open>Facts about the operations\<close>

lemmas consts_defs = BIRD_SIZE_def BIRD_X_def GRAVITY_def JUMP_VELOCITY_def PIPE_WIDTH_def
  PIPE_GAP_def PIPE_SPEED_def

lemmas step_defs = startIfNeeded_def tick_def advance_def intersects_def triggerGameOver_def
  birdRect_def topPipe_def bottomPipe_def birdCenterX_def resetGame_def

subsection \<open>The collision and scoring pass\<close>

lemma collisionPass_pipes:
  "fst (collisionPass d y ps c g) = map (\<lambda>p. p\<lparr>scored := scored p \<or> passed d p\<rparr>) ps"
  by (induction ps arbitrary: c g) (auto simp: passed_def Let_def split_beta)

lemma collisionPass_collided:
  "fst (snd (collisionPass d y ps c g)) \<longleftrightarrow> c \<or> (\<exists>p\<in>set ps. hits d y p)"
  by (induction ps arbitrary: c g) (auto simp: hits_def Let_def split_beta)

lemma collisionPass_gained:
  "snd (snd (collisionPass d y ps c g)) = g + length (filter (due d) ps)"
  by (induction ps arbitrary: c g) (auto simp: due_def passed_def Let_def split_beta)

subsection \<open>The two outcomes of a tick\<close>

lemma tick_floor:
  "floorHit d st \<Longrightarrow>
     tick d rnd s st =
       triggerGameOver s (st\<lparr>birdV := birdV st + GRAVITY, birdY := SCREEN_HEIGHT d - BIRD_SIZE\<rparr>)"
  by (auto simp: tick_def floorHit_def clampedY_def integrated_def Let_def split: if_splits)

lemma tick_no_floor:
  "\<not> floorHit d st \<Longrightarrow>
     tick d rnd s st =
       (if \<exists>p\<in>set (fst (advance d rnd (pipes st) (draws st))). hits d (clampedY st) p
        then triggerGameOver s (afterPasses d rnd st) else afterPasses d rnd st)"
  unfolding tick_def floorHit_def clampedY_def integrated_def Let_def afterPasses_def
  apply (simp add: split_beta collisionPass_pipes collisionPass_collided collisionPass_gained clampedY_def integrated_def del: One_nat_def)
  done

subsection \<open>The random height\<close>

lemma randomTopHeight_range:
  assumes "rangeNonEmpty d" "0 \<le> r" "r < 1"
  shows "randomTopHeight d r \<in> \<int>" "60 \<le> randomTopHeight d r" "randomTopHeight d r < SCREEN_HEIGHT d - 200"
proof -
  let ?w = "SCREEN_HEIGHT d - 200 - 60"
  have eq: "randomTopHeight d r = real_of_int \<lfloor>r * ?w\<rfloor> + 60"
    by (simp add: randomTopHeight_def Let_def)
  have w: "0 < ?w" using assms(1) by (simp add: rangeNonEmpty_def)
  have lo: "0 \<le> r * ?w" using assms(2) w by simp
  have hi: "r * ?w < ?w" using assms(3) w by simp
  have f0: "0 \<le> real_of_int \<lfloor>r * ?w\<rfloor>" using lo by simp
  have f1: "real_of_int \<lfloor>r * ?w\<rfloor> \<le> r * ?w" by (rule of_int_floor_le)
  show "randomTopHeight d r \<in> \<int>" unfolding eq by simp
  show "60 \<le> randomTopHeight d r" unfolding eq using f0 by linarith
  show "randomTopHeight d r < SCREEN_HEIGHT d - 200" unfolding eq using f1 hi by linarith
qed

lemma randomTopHeight_empty_range:
  assumes "\<not> rangeNonEmpty d" "0 \<le> r" "r < 1"
  shows "randomTopHeight d r \<in> \<int>" "randomTopHeight d r \<le> 60" "SCREEN_HEIGHT d - 201 < randomTopHeight d r"
proof -
  let ?w = "SCREEN_HEIGHT d - 200 - 60"
  have eq: "randomTopHeight d r = real_of_int \<lfloor>r * ?w\<rfloor> + 60"
    by (simp add: randomTopHeight_def Let_def)
  have w: "?w \<le> 0" using assms(1) by (simp add: rangeNonEmpty_def)
  have hi: "r * ?w \<le> 0" using assms(2) w by (simp add: mult_nonneg_nonpos)
  have lo: "?w \<le> r * ?w" using assms(2,3) w mult_right_mono_neg[of r 1 ?w] by simp
  have f0: "real_of_int \<lfloor>r * ?w\<rfloor> \<le> 0" using hi by (metis of_int_floor_le order_trans)
  have f1: "r * ?w - 1 < real_of_int \<lfloor>r * ?w\<rfloor>" by linarith
  show "randomTopHeight d r \<in> \<int>" unfolding eq by simp
  show "randomTopHeight d r \<le> 60" unfolding eq using f0 by linarith
  show "SCREEN_HEIGHT d - 201 < randomTopHeight d r" unfolding eq using f1 lo by linarith
qed

subsection \<open>Moving and recycling\<close>

lemma recycle_length: "length (fst (recycle d rnd us n)) = length us"
  by (induction us arbitrary: n) (simp_all add: split_beta Let_def)

lemma recycle_nth:
  "i < length us \<Longrightarrow>
     (if pipe_x (us ! i) + PIPE_WIDTH < 0
      then \<exists>k. fst (recycle d rnd us n) ! i =
                 (us ! i)\<lparr>pipe_x := SCREEN_WIDTH d + rnd k * 120 + 60,
                          topHeight := randomTopHeight d (rnd (k + 1)),
                          scored := False\<rparr>
      else fst (recycle d rnd us n) ! i = us ! i)"
proof (induction us arbitrary: n i)
  case Nil
  then show ?case by simp
next
  case (Cons p ps)
  show ?case
  proof (cases i)
    case 0
    then show ?thesis by (auto simp: split_beta Let_def)
  next
    case (Suc j)
    with Cons.prems have j: "j < length ps" by simp
    show ?thesis
      using Cons.IH[OF j, of "n + 2"] Cons.IH[OF j, of n] Suc
      by (auto simp: split_beta Let_def split: if_splits)
  qed
qed

lemma advance_length: "length (fst (advance d rnd ps n)) = length ps"
  by (simp add: advance_def recycle_length)

lemma advance_nth:
  assumes "i < length ps"
  shows "(if pipe_x (ps ! i) - PIPE_SPEED + PIPE_WIDTH < 0
      then \<exists>k. fst (advance d rnd ps n) ! i =
                 (ps ! i)\<lparr>pipe_x := SCREEN_WIDTH d + rnd k * 120 + 60,
                          topHeight := randomTopHeight d (rnd (k + 1)),
                          scored := False\<rparr>
      else fst (advance d rnd ps n) ! i = (ps ! i)\<lparr>pipe_x := pipe_x (ps ! i) - PIPE_SPEED\<rparr>)"
  using recycle_nth[of i "map (\<lambda>p. p\<lparr>pipe_x := pipe_x p - PIPE_SPEED\<rparr>) ps" d rnd n] assms
  by (auto simp: advance_def split: if_splits)

lemma startPipes_inRange:
  assumes "rangeNonEmpty d" and "unitInterval rnd"
  shows "\<forall>p\<in>set (startPipes d rnd n). inRange d p"
  using randomTopHeight_range[OF assms(1), of "rnd n"]
    randomTopHeight_range[OF assms(1), of "rnd (n + 1)"] assms(2)
  by (simp add: startPipes_def inRange_def unitInterval_def Let_def)

lemma recycle_inRange:
  assumes "rangeNonEmpty d" and "unitInterval rnd"
  shows "\<forall>p\<in>set us. inRange d p \<Longrightarrow> \<forall>p\<in>set (fst (recycle d rnd us n)). inRange d p"
proof (induction us arbitrary: n)
  case Nil
  then show ?case by simp
next
  case (Cons p ps)
  have fresh: "inRange d (p\<lparr>pipe_x := a, topHeight := randomTopHeight d (rnd k), scored := False\<rparr>)"
    for a k
    using randomTopHeight_range[OF assms(1), of "rnd k"] assms(2)
    by (simp add: inRange_def unitInterval_def)
  from Cons.prems have p: "inRange d p" and ps: "\<forall>q\<in>set ps. inRange d q" by simp_all
  show ?case
    using Cons.IH[OF ps, of "n + 2"] Cons.IH[OF ps, of n] p fresh
    by (auto simp: split_beta Let_def)
qed

lemma advance_inRange:
  assumes "rangeNonEmpty d" and "unitInterval rnd" and "\<forall>p\<in>set ps. inRange d p"
  shows "\<forall>p\<in>set (fst (advance d rnd ps n)). inRange d p"
  unfolding advance_def Let_def
  by (rule recycle_inRange[OF assms(1,2)]) (use assms(3) in \<open>simp add: inRange_def\<close>)

subsection \<open>Runs and their invariants\<close>

lemma foldl_fire_invariant:
  assumes "P st" and "\<And>st e. P st \<Longrightarrow> P (fire d rnd st e)"
  shows "P (foldl (fire d rnd) st es)"
  using assms(1) by (induction es arbitrary: st) (simp_all add: assms(2))

lemma run_invariant:
  assumes "P (mount d rnd)" and "\<And>st e. P st \<Longrightarrow> P (fire d rnd st e)"
  shows "P (run d rnd es)"
  unfolding run_def using assms by (rule foldl_fire_invariant)

lemma run_append: "run d rnd (es @ es') = foldl (fire d rnd) (run d rnd es) es'"
  by (simp add: run_def)

lemma fire_inRange:
  assumes "rangeNonEmpty d" and "unitInterval rnd" and "\<forall>p\<in>set (pipes st). inRange d p"
  shows "\<forall>p\<in>set (pipes (fire d rnd st e)). inRange d p"
proof (cases e)
  case Tap
  then show ?thesis using assms(3) by (simp add: startIfNeeded_def Let_def)
next
  case Reset
  then show ?thesis using assms(3) startPipes_inRange[OF assms(1,2)] by (simp add: resetGame_def)
next
  case Tick
  show ?thesis
  proof (cases "loopRef st")
    case None
    with Tick assms(3) show ?thesis by simp
  next
    case (Some s)
    show ?thesis
    proof (cases "floorHit d st")
      case True
      with Tick Some assms(3) show ?thesis by (simp add: tick_floor triggerGameOver_def)
    next
      case False
      have "\<forall>p\<in>set (pipes (afterPasses d rnd st)). inRange d p"
        using advance_inRange[OF assms, of "draws st"] by (simp add: afterPasses_def inRange_def)
      with Tick Some False show ?thesis by (simp add: tick_no_floor triggerGameOver_def)
    qed
  qed
qed

lemma run_inRange:
  assumes "rangeNonEmpty d" and "unitInterval rnd"
  shows "\<forall>p\<in>set (pipes (run d rnd es)). inRange d p"
proof (rule run_invariant)
  show "\<forall>p\<in>set (pipes (mount d rnd)). inRange d p"
    using startPipes_inRange[OF assms] by (simp add: mount_def)
next
  fix st :: game and e
  assume "\<forall>p\<in>set (pipes st). inRange d p"
  then show "\<forall>p\<in>set (pipes (fire d rnd st e)). inRange d p" by (rule fire_inRange[OF assms])
qed

lemma startPipes_not_passed:
  assumes "0 \<le> SCREEN_WIDTH d"
  shows "\<forall>p\<in>set (startPipes d rnd n). \<not> due d p"
  using assms by (simp add: startPipes_def due_def passed_def birdCenterX_def consts_defs Let_def)

lemma afterPasses_none_due: "\<forall>p\<in>set (pipes (afterPasses d rnd st)). \<not> due d p"
  by (simp add: afterPasses_def due_def passed_def)

lemma fire_none_due:
  assumes "0 \<le> SCREEN_WIDTH d" and "\<forall>p\<in>set (pipes st). \<not> due d p"
  shows "\<forall>p\<in>set (pipes (fire d rnd st e)). \<not> due d p"
proof (cases e)
  case Tap
  then show ?thesis using assms(2) by (simp add: startIfNeeded_def Let_def)
next
  case Reset
  then show ?thesis using assms(2) startPipes_not_passed[OF assms(1)] by (simp add: resetGame_def)
next
  case Tick
  show ?thesis
  proof (cases "loopRef st")
    case None
    with Tick assms(2) show ?thesis by simp
  next
    case (Some s)
    show ?thesis
    proof (cases "floorHit d st")
      case True
      with Tick Some assms(2) show ?thesis by (simp add: tick_floor triggerGameOver_def)
    next
      case False
      with Tick Some afterPasses_none_due[of d rnd st] show ?thesis
        by (simp add: tick_no_floor triggerGameOver_def)
    qed
  qed
qed

lemma run_none_due:
  assumes "0 \<le> SCREEN_WIDTH d"
  shows "\<forall>p\<in>set (pipes (run d rnd es)). \<not> due d p"
proof (rule run_invariant)
  show "\<forall>p\<in>set (pipes (mount d rnd)). \<not> due d p"
    using startPipes_not_passed[OF assms] by (simp add: mount_def)
next
  fix st :: game and e
  assume "\<forall>p\<in>set (pipes st). \<not> due d p"
  then show "\<forall>p\<in>set (pipes (fire d rnd st e)). \<not> due d p" by (rule fire_none_due[OF assms])
qed

text \<open>
  Every session starts a run with the score 0, so the interval callback of every run has
  captured the score 0, and \<open>setBest\<close> never sees another one: the best score is 0 in
  every reachable state.
\<close>

lemma fire_keeps_best_zero:
  assumes "best st = 0" and "loopRef st = None \<or> (loopRef st = Some 0 \<and> running st)"
    and "\<not> running st \<and> \<not> gameOver st \<longrightarrow> score st = 0"
  shows "best (fire d rnd st e) = 0
       \<and> (loopRef (fire d rnd st e) = None \<or>
            (loopRef (fire d rnd st e) = Some 0 \<and> running (fire d rnd st e)))
       \<and> (\<not> running (fire d rnd st e) \<and> \<not> gameOver (fire d rnd st e)
            \<longrightarrow> score (fire d rnd st e) = 0)"
proof (cases e)
  case Tap
  then show ?thesis using assms by (auto simp: startIfNeeded_def Let_def)
next
  case Reset
  then show ?thesis using assms by (auto simp: resetGame_def)
next
  case Tick
  show ?thesis
  proof (cases "loopRef st")
    case None
    with Tick assms show ?thesis by simp
  next
    case (Some s)
    with assms(2) have s: "s = 0" and r: "running st" by simp_all
    show ?thesis
    proof (cases "floorHit d st")
      case True
      with Tick Some s assms(1) show ?thesis by (simp add: tick_floor triggerGameOver_def)
    next
      case False
      with Tick Some s r assms(1) show ?thesis
        by (simp add: tick_no_floor triggerGameOver_def afterPasses_def)
    qed
  qed
qed

lemma run_best_zero: "best (run d rnd es) = 0"
proof -
  let ?P = "\<lambda>st. best st = 0
      \<and> (loopRef st = None \<or> (loopRef st = Some 0 \<and> running st))
      \<and> (\<not> running st \<and> \<not> gameOver st \<longrightarrow> score st = 0)"
  have "?P (run d rnd es)"
  proof (rule run_invariant)
    show "?P (mount d rnd)" by (simp add: mount_def)
  next
    fix st :: game and e
    assume "?P st"
    then show "?P (fire d rnd st e)" using fire_keeps_best_zero[of st d rnd e] by blast
  qed
  then show ?thesis by simp
qed

subsection \<open>The concrete sessions, evaluated\<close>

lemma replicate_numeral: "replicate (numeral k) x = x # replicate (pred_numeral k) x"
  by (simp add: numeral_eq_Suc)

lemmas run_defs = run_def mount_def startPipes_def randomTopHeight_def replicate_numeral

lemma unitInterval_rnd0: "unitInterval rnd0"
  by (simp add: unitInterval_def rnd0_def)

lemma run_phone_Tap:
  "run phone rnd0 [Tap] =
     \<lparr>running = True, gameOver = False, score = 0, best = 0, birdY = 1278 / 5,
      birdV = - (21 / 2),
      pipes = [\<lparr>pipe_x = 420, topHeight = 152, scored = False\<rparr>,
               \<lparr>pipe_x = 612, topHeight = 152, scored = False\<rparr>],
      loopRef = Some 0, draws = 2\<rparr>"
  by (simp add: run_def mount_def startPipes_def randomTopHeight_def phone_def rnd0_def
      startIfNeeded_def JUMP_VELOCITY_def)

lemma run_phone_crash:
  "run phone rnd0 crash =
     \<lparr>running = False, gameOver = True, score = 0, best = 0, birdY = 528,
      birdV = 207 / 10,
      pipes = [\<lparr>pipe_x = 1284 / 5, topHeight = 152, scored = False\<rparr>,
               \<lparr>pipe_x = 2244 / 5, topHeight = 152, scored = False\<rparr>],
      loopRef = None, draws = 2\<rparr>"
  by (simp add: crash_def run_defs step_defs consts_defs phone_def rnd0_def)

lemma run_phone_climb:
  "run phone rnd0 climb =
     \<lparr>running = True, gameOver = False, score = 0, best = 0, birdY = 81 / 10,
      birdV = - (21 / 2),
      pipes = [\<lparr>pipe_x = 612 / 5, topHeight = 152, scored = False\<rparr>,
               \<lparr>pipe_x = 1572 / 5, topHeight = 152, scored = False\<rparr>],
      loopRef = Some 0, draws = 2\<rparr>"
  by (simp add: climb_def flap_def run_defs step_defs consts_defs phone_def rnd0_def)

lemma run_phone_beforeCrash:
  "run phone rnd0 beforeCrash =
     \<lparr>running = True, gameOver = False, score = 1, best = 0, birdY = 5157 / 10,
      birdV = 201 / 10,
      pipes = [\<lparr>pipe_x = - (348 / 5), topHeight = 152, scored = True\<rparr>,
               \<lparr>pipe_x = 612 / 5, topHeight = 152, scored = False\<rparr>],
      loopRef = Some 0, draws = 2\<rparr>"
  by (simp add: beforeCrash_def flap_def run_defs step_defs consts_defs phone_def rnd0_def)

lemma run_tinyWindow_Tap:
  "run tinyWindow rnd0 [Tap] =
     \<lparr>running = True, gameOver = False, score = 0, best = 0, birdY = 9,
      birdV = - (21 / 2),
      pipes = [\<lparr>pipe_x = 420, topHeight = - 12, scored = False\<rparr>,
               \<lparr>pipe_x = 612, topHeight = - 12, scored = False\<rparr>],
      loopRef = Some 0, draws = 2\<rparr>"
  by (simp add: run_defs step_defs consts_defs tinyWindow_def rnd0_def)

lemma run_lowWindow_Tap_Tick:
  "run lowWindow rndHalf [Tap, Tick] =
     \<lparr>running = True, gameOver = False, score = 0, best = 0, birdY = 981 / 10,
      birdV = - (99 / 10),
      pipes = [\<lparr>pipe_x = 2084 / 5, topHeight = 50, scored = False\<rparr>,
               \<lparr>pipe_x = 3044 / 5, topHeight = 50, scored = False\<rparr>],
      loopRef = Some 0, draws = 2\<rparr>"
  by (simp add: run_defs step_defs consts_defs lowWindow_def rndHalf_def)

lemma run_phone_beforeClip:
  "run phone rnd0 beforeClip =
     \<lparr>running = True, gameOver = False, score = 0, best = 0, birdY = 1593 / 10,
      birdV = - (99 / 10),
      pipes = [\<lparr>pipe_x = 164 / 5, topHeight = 152, scored = False\<rparr>,
               \<lparr>pipe_x = 1124 / 5, topHeight = 152, scored = False\<rparr>],
      loopRef = Some 0, draws = 2\<rparr>"
  by (simp add: beforeClip_def flap_def run_defs step_defs consts_defs phone_def rnd0_def)

lemma advance_exiting:
  "fst (advance phone rnd0 exiting 2) =
     [\<lparr>pipe_x = 416, topHeight = 152, scored = False\<rparr>,
      \<lparr>pipe_x = 604 / 5, topHeight = 300, scored = False\<rparr>]"
  by (simp add: advance_def exiting_def phone_def rnd0_def randomTopHeight_def consts_defs)

section \<open>The claims\<close>

subsection \<open>C1: the best score at the end of a game\<close>

text \<open>
  C1 says that the transition to game over sets \<open>best\<close> to the larger of \<open>best\<close> and
  the score at the moment of the collision. The code does not: on the phone, the run
  \<open>beforeCrash\<close> is a running game with score 1 and best 0, its next tick reaches the
  floor and ends the game, and the best score is still 0, where the claim has 1. The
  \<^verbatim>\<open>triggerGameOver\<close> that the interval calls is the one of the render that started the
  run, and its \<^verbatim>\<open>score\<close> is 0.
\<close>

theorem stale_score_keeps_best:
  "running (run phone rnd0 beforeCrash)
   \<and> score (run phone rnd0 beforeCrash) = 1
   \<and> best (run phone rnd0 beforeCrash) = 0
   \<and> gameOver (run phone rnd0 (beforeCrash @ [Tick]))
   \<and> score (run phone rnd0 (beforeCrash @ [Tick])) = 1
   \<and> best (run phone rnd0 (beforeCrash @ [Tick])) = 0
   \<and> best (run phone rnd0 (beforeCrash @ [Tick]))
        \<noteq> max (best (run phone rnd0 beforeCrash)) (score (run phone rnd0 beforeCrash))"
  unfolding run_append run_phone_beforeCrash
  by (simp add: step_defs consts_defs phone_def rnd0_def)

subsection \<open>C2: a press while the game is over\<close>

text \<open>
  C2, as the code has it. While \<open>gameOver\<close> holds, a press on the screen changes nothing
  but the bird's velocity, which it sets to \<open>JUMP_VELOCITY\<close>: the phase, the position,
  the pipes, the score, the best score and the interval handle stay as they are.
\<close>

theorem gameOver_tap:
  assumes "gameOver st"
  shows "startIfNeeded st = st\<lparr>birdV := JUMP_VELOCITY\<rparr>
       \<and> fire d rnd st Tap = st\<lparr>birdV := JUMP_VELOCITY\<rparr>"
  using assms by (simp add: startIfNeeded_def)

theorem gameOver_tap_witness:
  "gameOver (run phone rnd0 crash)
   \<and> startIfNeeded (run phone rnd0 crash) = (run phone rnd0 crash)\<lparr>birdV := JUMP_VELOCITY\<rparr>
   \<and> running (startIfNeeded (run phone rnd0 crash)) = running (run phone rnd0 crash)"
proof -
  have g: "gameOver (run phone rnd0 crash)" by (simp add: run_phone_crash)
  from gameOver_tap[OF g, of phone rnd0] g show ?thesis by simp
qed

text \<open>
  C2 as the specification words it, with a press changing no part of the state, fails:
  after \<open>crash\<close> the game is over with velocity 20.7, and a press makes it -10.5.
\<close>

theorem gameOver_tap_counterexample:
  "gameOver (run phone rnd0 crash)
   \<and> birdV (run phone rnd0 crash) = 207 / 10
   \<and> birdV (startIfNeeded (run phone rnd0 crash)) = - (21 / 2)
   \<and> startIfNeeded (run phone rnd0 crash) \<noteq> run phone rnd0 crash"
proof -
  have "birdV (startIfNeeded (run phone rnd0 crash)) \<noteq> birdV (run phone rnd0 crash)"
    unfolding run_phone_crash by (simp add: startIfNeeded_def JUMP_VELOCITY_def)
  then have "startIfNeeded (run phone rnd0 crash) \<noteq> run phone rnd0 crash" by metis
  then show ?thesis
    unfolding run_phone_crash by (simp add: startIfNeeded_def JUMP_VELOCITY_def)
qed

subsection \<open>C3: scoring in a tick\<close>

text \<open>
  C3. In a tick that does not reach the floor, the pipes after the tick are the moved and
  recycled pipes with \<open>scored\<close> set on exactly those that were scored already or have
  been passed, every other field as it was; the score grows by the number of pipes that
  were not scored and have been passed; this is so whether or not the tick ends the game,
  which it does exactly when the bird hits one of the pipes; and a pipe that was scored
  before the tick and is not recycled in it is not counted again and stays scored. A tick
  that reaches the floor runs no scoring pass, and in every state that a session can reach
  no pipe is then due to score: the pipes and the score stay as they are.
\<close>

theorem tick_scoring:
  assumes "0 \<le> SCREEN_WIDTH d"
  shows "(\<not> floorHit d st \<longrightarrow>
            pipes (tick d rnd s st) =
              map (\<lambda>p. p\<lparr>scored := scored p \<or> passed d p\<rparr>)
                (fst (advance d rnd (pipes st) (draws st)))
          \<and> score (tick d rnd s st) =
              score st + length (filter (due d) (fst (advance d rnd (pipes st) (draws st))))
          \<and> (gameOver (tick d rnd s st) \<longleftrightarrow>
               gameOver st \<or>
               (\<exists>p\<in>set (fst (advance d rnd (pipes st) (draws st))). hits d (clampedY st) p))
          \<and> (\<forall>i<length (pipes st).
               scored (pipes st ! i) \<and> \<not> pipe_x (pipes st ! i) - PIPE_SPEED + PIPE_WIDTH < 0 \<longrightarrow>
               \<not> due d (fst (advance d rnd (pipes st) (draws st)) ! i)
               \<and> scored (pipes (tick d rnd s st) ! i)))
       \<and> (floorHit d (run d rnd es) \<longrightarrow>
            (\<forall>p\<in>set (pipes (run d rnd es)). \<not> due d p)
          \<and> pipes (tick d rnd s (run d rnd es)) = pipes (run d rnd es)
          \<and> score (tick d rnd s (run d rnd es)) = score (run d rnd es))"
proof (intro conjI impI allI)
  assume nf: "\<not> floorHit d st"
  note t = tick_no_floor[OF nf, of rnd s]
  show p: "pipes (tick d rnd s st) =
          map (\<lambda>p. p\<lparr>scored := scored p \<or> passed d p\<rparr>)
            (fst (advance d rnd (pipes st) (draws st)))"
    by (simp add: t triggerGameOver_def afterPasses_def)
  show "score (tick d rnd s st) =
          score st + length (filter (due d) (fst (advance d rnd (pipes st) (draws st))))"
    by (simp add: t triggerGameOver_def afterPasses_def)
  show "gameOver (tick d rnd s st) \<longleftrightarrow>
          gameOver st \<or>
          (\<exists>p\<in>set (fst (advance d rnd (pipes st) (draws st))). hits d (clampedY st) p)"
    by (simp add: t triggerGameOver_def afterPasses_def)
  fix i
  assume i: "i < length (pipes st)"
    and k: "scored (pipes st ! i) \<and> \<not> pipe_x (pipes st ! i) - PIPE_SPEED + PIPE_WIDTH < 0"
  have m: "fst (advance d rnd (pipes st) (draws st)) ! i =
             (pipes st ! i)\<lparr>pipe_x := pipe_x (pipes st ! i) - PIPE_SPEED\<rparr>"
    using advance_nth[OF i, of d rnd "draws st"] k by simp
  show "\<not> due d (fst (advance d rnd (pipes st) (draws st)) ! i)"
    using k by (simp add: m due_def)
  show "scored (pipes (tick d rnd s st) ! i)"
    using i k by (simp add: p advance_length m)
next
  assume f: "floorHit d (run d rnd es)"
  show "\<forall>p\<in>set (pipes (run d rnd es)). \<not> due d p" by (rule run_none_due[OF assms])
  show "pipes (tick d rnd s (run d rnd es)) = pipes (run d rnd es)"
    by (simp add: tick_floor[OF f] triggerGameOver_def)
  show "score (tick d rnd s (run d rnd es)) = score (run d rnd es)"
    by (simp add: tick_floor[OF f] triggerGameOver_def)
qed

theorem tick_scoring_witness:
  "0 \<le> SCREEN_WIDTH phone
   \<and> \<not> floorHit phone (run phone rnd0 beforeClip)
   \<and> score (run phone rnd0 beforeClip) = 0
   \<and> score (tick phone rnd0 0 (run phone rnd0 beforeClip)) = 1
   \<and> gameOver (tick phone rnd0 0 (run phone rnd0 beforeClip))
   \<and> floorHit phone (run phone rnd0 beforeCrash)
   \<and> list_all (\<lambda>p. \<not> due phone p) (pipes (run phone rnd0 beforeCrash))
   \<and> score (tick phone rnd0 0 (run phone rnd0 beforeCrash)) = score (run phone rnd0 beforeCrash)"
proof -
  have w: "0 \<le> SCREEN_WIDTH phone" by (simp add: phone_def)
  have nf: "\<not> floorHit phone (run phone rnd0 beforeClip)"
    unfolding run_phone_beforeClip
    by (simp add: floorHit_def clampedY_def integrated_def consts_defs phone_def)
  have s0: "score (run phone rnd0 beforeClip) = 0"
    by (simp add: run_phone_beforeClip)
  have g: "length (filter (due phone)
        (fst (advance phone rnd0 (pipes (run phone rnd0 beforeClip))
               (draws (run phone rnd0 beforeClip))))) = 1"
    unfolding run_phone_beforeClip
    by (simp add: advance_def due_def passed_def birdCenterX_def consts_defs phone_def)
  have h: "\<exists>p\<in>set (fst (advance phone rnd0 (pipes (run phone rnd0 beforeClip))
               (draws (run phone rnd0 beforeClip)))).
             hits phone (clampedY (run phone rnd0 beforeClip)) p"
    unfolding run_phone_beforeClip
    by (simp add: advance_def hits_def intersects_def birdRect_def topPipe_def bottomPipe_def
        clampedY_def integrated_def consts_defs phone_def)
  have f: "floorHit phone (run phone rnd0 beforeCrash)"
    unfolding run_phone_beforeCrash
    by (simp add: floorHit_def clampedY_def integrated_def consts_defs phone_def)
  from tick_scoring[OF w, of "run phone rnd0 beforeClip" rnd0 0 beforeCrash] w nf s0 g h f
  show ?thesis by (simp add: list_all_iff)
qed

subsection \<open>C4: the two limits\<close>

text \<open>
  C4, as the code has it. When the position after the physics is below 0 and the screen
  is at least as high as the bird, the position becomes 0, the velocity stays the one the
  physics gave, and the tick goes on to move the pipes and to run the collision and
  scoring pass: it ends the game exactly when the bird, at height 0, hits a pipe. When
  the position, after the upper limit, plus the bird's size exceeds the screen height
  (as it does when the position after the physics already does), the position becomes
  the screen height minus the bird's size, the game is over, and the pipes, the score
  and the random source are left untouched.
\<close>

theorem tick_limits:
  "(integrated st < 0 \<and> BIRD_SIZE \<le> SCREEN_HEIGHT d \<longrightarrow>
      birdY (tick d rnd s st) = 0
      \<and> birdV (tick d rnd s st) = birdV st + GRAVITY
      \<and> pipes (tick d rnd s st) =
          map (\<lambda>p. p\<lparr>scored := scored p \<or> passed d p\<rparr>)
            (fst (advance d rnd (pipes st) (draws st)))
      \<and> score (tick d rnd s st) =
          score st + length (filter (due d) (fst (advance d rnd (pipes st) (draws st))))
      \<and> (gameOver (tick d rnd s st) \<longleftrightarrow>
           gameOver st \<or> (\<exists>p\<in>set (fst (advance d rnd (pipes st) (draws st))). hits d 0 p)))
   \<and> (SCREEN_HEIGHT d < integrated st + BIRD_SIZE \<longrightarrow> floorHit d st)
   \<and> (floorHit d st \<longrightarrow>
      birdY (tick d rnd s st) = SCREEN_HEIGHT d - BIRD_SIZE
      \<and> birdV (tick d rnd s st) = birdV st + GRAVITY
      \<and> gameOver (tick d rnd s st) \<and> \<not> running (tick d rnd s st)
      \<and> loopRef (tick d rnd s st) = None
      \<and> pipes (tick d rnd s st) = pipes st
      \<and> score (tick d rnd s st) = score st
      \<and> draws (tick d rnd s st) = draws st)"
proof (intro conjI impI)
  assume a: "integrated st < 0 \<and> BIRD_SIZE \<le> SCREEN_HEIGHT d"
  then have c: "clampedY st = 0" by (simp add: clampedY_def)
  with a have nf: "\<not> floorHit d st" by (simp add: floorHit_def)
  note t = tick_no_floor[OF nf, of rnd s] c
  show "birdY (tick d rnd s st) = 0" by (simp add: t triggerGameOver_def afterPasses_def)
  show "birdV (tick d rnd s st) = birdV st + GRAVITY"
    by (simp add: t triggerGameOver_def afterPasses_def)
  show "pipes (tick d rnd s st) =
          map (\<lambda>p. p\<lparr>scored := scored p \<or> passed d p\<rparr>)
            (fst (advance d rnd (pipes st) (draws st)))"
    by (simp add: t triggerGameOver_def afterPasses_def)
  show "score (tick d rnd s st) =
          score st + length (filter (due d) (fst (advance d rnd (pipes st) (draws st))))"
    by (simp add: t triggerGameOver_def afterPasses_def)
  show "gameOver (tick d rnd s st) \<longleftrightarrow>
          gameOver st \<or> (\<exists>p\<in>set (fst (advance d rnd (pipes st) (draws st))). hits d 0 p)"
    by (simp add: t triggerGameOver_def afterPasses_def)
next
  assume "SCREEN_HEIGHT d < integrated st + BIRD_SIZE"
  then show "floorHit d st" by (simp add: floorHit_def clampedY_def BIRD_SIZE_def)
next
  assume f: "floorHit d st"
  note t = tick_floor[OF f, of rnd s]
  show "birdY (tick d rnd s st) = SCREEN_HEIGHT d - BIRD_SIZE" by (simp add: t triggerGameOver_def)
  show "birdV (tick d rnd s st) = birdV st + GRAVITY" by (simp add: t triggerGameOver_def)
  show "gameOver (tick d rnd s st)" by (simp add: t triggerGameOver_def)
  show "\<not> running (tick d rnd s st)" by (simp add: t triggerGameOver_def)
  show "loopRef (tick d rnd s st) = None" by (simp add: t triggerGameOver_def)
  show "pipes (tick d rnd s st) = pipes st" by (simp add: t triggerGameOver_def)
  show "score (tick d rnd s st) = score st" by (simp add: t triggerGameOver_def)
  show "draws (tick d rnd s st) = draws st" by (simp add: t triggerGameOver_def)
qed

theorem tick_limits_witness:
  "integrated (run tinyWindow rnd0 [Tap]) < 0
   \<and> floorHit tinyWindow (run tinyWindow rnd0 [Tap])
   \<and> birdY (tick tinyWindow rnd0 0 (run tinyWindow rnd0 [Tap])) = SCREEN_HEIGHT tinyWindow - BIRD_SIZE
   \<and> integrated (run phone rnd0 climb) < 0 \<and> BIRD_SIZE \<le> SCREEN_HEIGHT phone
   \<and> birdY (tick phone rnd0 0 (run phone rnd0 climb)) = 0
   \<and> birdV (tick phone rnd0 0 (run phone rnd0 climb)) = - (99 / 10)"
proof -
  have a: "integrated (run tinyWindow rnd0 [Tap]) < 0"
    unfolding run_tinyWindow_Tap by (simp add: integrated_def GRAVITY_def)
  have b: "floorHit tinyWindow (run tinyWindow rnd0 [Tap])"
    unfolding run_tinyWindow_Tap
    by (simp add: floorHit_def clampedY_def integrated_def consts_defs tinyWindow_def)
  have c: "integrated (run phone rnd0 climb) < 0 \<and> BIRD_SIZE \<le> SCREEN_HEIGHT phone"
    unfolding run_phone_climb by (simp add: integrated_def consts_defs phone_def)
  have v: "birdV (run phone rnd0 climb) + GRAVITY = - (99 / 10)"
    unfolding run_phone_climb by (simp add: GRAVITY_def)
  from tick_limits[of "run tinyWindow rnd0 [Tap]" tinyWindow rnd0 0]
    tick_limits[of "run phone rnd0 climb" phone rnd0 0] a b c v
  show ?thesis by simp
qed

text \<open>
  C4 as the specification words it, with a position below 0 set to 0 and the game not
  ending, fails twice. In a window 20 points high the first tick takes the bird from 9 to
  -0.9; it is set to 0, then the lower limit applies to it, and it ends at -20 with the
  game over. On the phone, after \<open>climb\<close>, the tick takes the bird from 8.1 to -1.8; it
  is set to 0, where it meets the upper block of the first pipe, and the game is over.
\<close>

theorem tick_limits_counterexample:
  "integrated (run tinyWindow rnd0 [Tap]) < 0
   \<and> birdY (tick tinyWindow rnd0 0 (run tinyWindow rnd0 [Tap])) = - 20
   \<and> gameOver (tick tinyWindow rnd0 0 (run tinyWindow rnd0 [Tap]))
   \<and> integrated (run phone rnd0 climb) < 0
   \<and> \<not> gameOver (run phone rnd0 climb)
   \<and> birdY (tick phone rnd0 0 (run phone rnd0 climb)) = 0
   \<and> gameOver (tick phone rnd0 0 (run phone rnd0 climb))"
  unfolding run_tinyWindow_Tap run_phone_climb
  by (simp add: integrated_def step_defs consts_defs phone_def tinyWindow_def rnd0_def)

subsection \<open>C5: the physics of a tick\<close>

text \<open>
  C5, as the code has it. In a tick in which neither limit is reached, the velocity grows
  by exactly \<open>GRAVITY\<close>, which is positive, and the position then changes by the new
  velocity, that is by the velocity before the tick plus \<open>GRAVITY\<close>: the callback adds
  the gravity first and the velocity second. (No press happens inside a tick.)
\<close>

theorem tick_integration:
  assumes "0 \<le> birdY st + (birdV st + GRAVITY)"
    and "birdY st + (birdV st + GRAVITY) + BIRD_SIZE \<le> SCREEN_HEIGHT d"
  shows "birdV (tick d rnd s st) = birdV st + GRAVITY
       \<and> birdV st < birdV (tick d rnd s st)
       \<and> birdY (tick d rnd s st) = birdY st + birdV (tick d rnd s st)"
proof -
  have nf: "\<not> floorHit d st" and c: "clampedY st = birdY st + (birdV st + GRAVITY)"
    using assms by (simp_all add: floorHit_def clampedY_def integrated_def)
  show ?thesis
    by (simp add: tick_no_floor[OF nf] afterPasses_def triggerGameOver_def c GRAVITY_def)
qed

theorem tick_integration_witness:
  "0 \<le> birdY (run phone rnd0 [Tap]) + (birdV (run phone rnd0 [Tap]) + GRAVITY)
   \<and> birdY (run phone rnd0 [Tap]) + (birdV (run phone rnd0 [Tap]) + GRAVITY) + BIRD_SIZE
        \<le> SCREEN_HEIGHT phone
   \<and> birdV (tick phone rnd0 0 (run phone rnd0 [Tap])) = - (99 / 10)
   \<and> birdY (tick phone rnd0 0 (run phone rnd0 [Tap])) = 1278 / 5 - 99 / 10"
proof -
  have a: "0 \<le> birdY (run phone rnd0 [Tap]) + (birdV (run phone rnd0 [Tap]) + GRAVITY)"
    and b: "birdY (run phone rnd0 [Tap]) + (birdV (run phone rnd0 [Tap]) + GRAVITY) + BIRD_SIZE
        \<le> SCREEN_HEIGHT phone"
    unfolding run_phone_Tap by (simp_all add: consts_defs phone_def)
  from tick_integration[OF a b, of rnd0 0] a b show ?thesis
    by (simp add: run_phone_Tap consts_defs)
qed

text \<open>
  C5 as the specification words it, with the position changing by the velocity of before
  the tick, fails: after the first press on the phone the bird is at 255.6 with velocity
  -10.5, no limit is reached, and the tick moves it to 245.7, not to 245.1.
\<close>

theorem tick_prevelocity_counterexample:
  "0 \<le> birdY (run phone rnd0 [Tap]) + (birdV (run phone rnd0 [Tap]) + GRAVITY)
   \<and> birdY (run phone rnd0 [Tap]) + (birdV (run phone rnd0 [Tap]) + GRAVITY) + BIRD_SIZE
        \<le> SCREEN_HEIGHT phone
   \<and> birdY (tick phone rnd0 0 (run phone rnd0 [Tap])) = 2457 / 10
   \<and> birdY (run phone rnd0 [Tap]) + birdV (run phone rnd0 [Tap]) = 2451 / 10
   \<and> birdY (tick phone rnd0 0 (run phone rnd0 [Tap]))
        \<noteq> birdY (run phone rnd0 [Tap]) + birdV (run phone rnd0 [Tap])"
  unfolding run_phone_Tap
  by (simp add: step_defs consts_defs phone_def rnd0_def)

subsection \<open>C6: moving and recycling the pipes\<close>

text \<open>
  C6. When \<^verbatim>\<open>Math.random()\<close> returns numbers of \<open>[0, 1)\<close>, the first updater returns
  as many pipes as it was given, and slot by slot: a pipe whose right edge, after the
  move by \<open>PIPE_SPEED\<close>, is strictly left of 0 gets the position \<open>SCREEN_WIDTH\<close> plus a
  random value of \<open>[60, 180)\<close>, the height that \<open>randomTopHeight\<close> makes of the next
  draw, and \<open>scored = False\<close>; every other pipe is the old one moved left by exactly
  \<open>PIPE_SPEED\<close>.
\<close>

theorem advance_recycles:
  assumes "unitInterval rnd"
  shows "length (fst (advance d rnd ps n)) = length ps
       \<and> (\<forall>i<length ps.
            if pipe_x (ps ! i) - PIPE_SPEED + PIPE_WIDTH < 0
            then \<exists>k. 60 \<le> rnd k * 120 + 60 \<and> rnd k * 120 + 60 < 180
                   \<and> fst (advance d rnd ps n) ! i =
                       (ps ! i)\<lparr>pipe_x := SCREEN_WIDTH d + (rnd k * 120 + 60),
                                 topHeight := randomTopHeight d (rnd (k + 1)),
                                 scored := False\<rparr>
            else fst (advance d rnd ps n) ! i = (ps ! i)\<lparr>pipe_x := pipe_x (ps ! i) - PIPE_SPEED\<rparr>)"
proof (intro conjI allI impI)
  show "length (fst (advance d rnd ps n)) = length ps" by (rule advance_length)
next
  fix i assume i: "i < length ps"
  have b: "60 \<le> rnd k * 120 + 60 \<and> rnd k * 120 + 60 < 180" for k
    using assms by (simp add: unitInterval_def)
  show "if pipe_x (ps ! i) - PIPE_SPEED + PIPE_WIDTH < 0
        then \<exists>k. 60 \<le> rnd k * 120 + 60 \<and> rnd k * 120 + 60 < 180
               \<and> fst (advance d rnd ps n) ! i =
                   (ps ! i)\<lparr>pipe_x := SCREEN_WIDTH d + (rnd k * 120 + 60),
                             topHeight := randomTopHeight d (rnd (k + 1)),
                             scored := False\<rparr>
        else fst (advance d rnd ps n) ! i = (ps ! i)\<lparr>pipe_x := pipe_x (ps ! i) - PIPE_SPEED\<rparr>"
  proof (cases "pipe_x (ps ! i) - PIPE_SPEED + PIPE_WIDTH < 0")
    case True
    with advance_nth[OF i, of d rnd n] obtain k where
      "fst (advance d rnd ps n) ! i =
         (ps ! i)\<lparr>pipe_x := SCREEN_WIDTH d + rnd k * 120 + 60,
                   topHeight := randomTopHeight d (rnd (k + 1)),
                   scored := False\<rparr>" by auto
    then have "fst (advance d rnd ps n) ! i =
         (ps ! i)\<lparr>pipe_x := SCREEN_WIDTH d + (rnd k * 120 + 60),
                   topHeight := randomTopHeight d (rnd (k + 1)),
                   scored := False\<rparr>" by (simp add: add.assoc)
    with b[of k] True show ?thesis by auto
  next
    case False
    with advance_nth[OF i, of d rnd n] show ?thesis by simp
  qed
qed

theorem advance_recycles_witness:
  "unitInterval rnd0
   \<and> length (fst (advance phone rnd0 exiting 2)) = length exiting
   \<and> pipe_x (exiting ! 0) - PIPE_SPEED + PIPE_WIDTH < 0
   \<and> (\<exists>k. 60 \<le> rnd0 k * 120 + 60 \<and> rnd0 k * 120 + 60 < 180
          \<and> fst (advance phone rnd0 exiting 2) ! 0 =
              (exiting ! 0)\<lparr>pipe_x := SCREEN_WIDTH phone + (rnd0 k * 120 + 60),
                             topHeight := randomTopHeight phone (rnd0 (k + 1)),
                             scored := False\<rparr>)
   \<and> fst (advance phone rnd0 exiting 2) ! 0 = \<lparr>pipe_x = 416, topHeight = 152, scored = False\<rparr>
   \<and> \<not> pipe_x (exiting ! 1) - PIPE_SPEED + PIPE_WIDTH < 0
   \<and> fst (advance phone rnd0 exiting 2) ! 1 =
        (exiting ! 1)\<lparr>pipe_x := pipe_x (exiting ! 1) - PIPE_SPEED\<rparr>"
proof -
  have l: "(0::nat) < length exiting" "(1::nat) < length exiting"
    by (simp_all add: exiting_def)
  have a: "pipe_x (exiting ! 0) - PIPE_SPEED + PIPE_WIDTH < 0"
    and b: "\<not> pipe_x (exiting ! 1) - PIPE_SPEED + PIPE_WIDTH < 0"
    by (simp_all add: exiting_def consts_defs)
  have v: "fst (advance phone rnd0 exiting 2) ! 0 =
             \<lparr>pipe_x = 416, topHeight = 152, scored = False\<rparr>"
    by (simp add: advance_exiting)
  note t = advance_recycles[OF unitInterval_rnd0, of phone exiting 2]
  from t have "length (fst (advance phone rnd0 exiting 2)) = length exiting" by blast
  moreover from t l(1) a have
    "\<exists>k. 60 \<le> rnd0 k * 120 + 60 \<and> rnd0 k * 120 + 60 < 180
        \<and> fst (advance phone rnd0 exiting 2) ! 0 =
            (exiting ! 0)\<lparr>pipe_x := SCREEN_WIDTH phone + (rnd0 k * 120 + 60),
                           topHeight := randomTopHeight phone (rnd0 (k + 1)),
                           scored := False\<rparr>"
    by presburger
  moreover from t l(2) b have
    "fst (advance phone rnd0 exiting 2) ! 1 =
       (exiting ! 1)\<lparr>pipe_x := pipe_x (exiting ! 1) - PIPE_SPEED\<rparr>"
    by presburger
  ultimately show ?thesis using unitInterval_rnd0 a b v by blast
qed

subsection \<open>C7: the range of the random height\<close>

text \<open>
  C7, as the code has it. When the range is not empty, that is when
  \<open>60 < SCREEN_HEIGHT - 200\<close>, every value that \<open>randomTopHeight\<close> makes of a draw of
  \<open>[0, 1)\<close> is an integer, at least 60 and below \<open>SCREEN_HEIGHT - 200\<close>, and in every
  state that a session reaches every pipe's height is an integer between 60 and
  \<open>SCREEN_HEIGHT - 200\<close>.
\<close>

theorem topHeight_in_range:
  assumes "rangeNonEmpty d" and "0 \<le> r" and "r < 1" and "unitInterval rnd"
  shows "randomTopHeight d r \<in> \<int>
       \<and> 60 \<le> randomTopHeight d r \<and> randomTopHeight d r < SCREEN_HEIGHT d - 200
       \<and> (\<forall>p\<in>set (pipes (run d rnd es)).
            topHeight p \<in> \<int> \<and> 60 \<le> topHeight p \<and> topHeight p \<le> SCREEN_HEIGHT d - 200)"
  using randomTopHeight_range[OF assms(1-3)] run_inRange[OF assms(1,4), of es]
  by (simp add: inRange_def)

theorem topHeight_in_range_witness:
  "rangeNonEmpty phone \<and> (0::real) \<le> 3 / 10 \<and> (3::real) / 10 < 1 \<and> unitInterval rnd0
   \<and> randomTopHeight phone (3 / 10) = 152
   \<and> list_all (\<lambda>p. topHeight p \<in> \<int> \<and> 60 \<le> topHeight p
                       \<and> topHeight p \<le> SCREEN_HEIGHT phone - 200)
         (pipes (run phone rnd0 [Tap]))"
proof -
  have a: "rangeNonEmpty phone" by (simp add: rangeNonEmpty_def phone_def)
  have b: "(0::real) \<le> 3 / 10" and c: "(3::real) / 10 < 1" by simp_all
  have v: "randomTopHeight phone (3 / 10) = 152" by (simp add: randomTopHeight_def phone_def)
  from topHeight_in_range[OF a b c unitInterval_rnd0, of "[Tap]"] a unitInterval_rnd0 v
  show ?thesis by (simp add: list_all_iff)
qed

text \<open>
  C7 as the specification words it, for every value that \<open>randomTopHeight\<close> returns,
  fails in a window 240 points high: the draw 0.5 gives the height 50, which is below 60.
\<close>

theorem topHeight_low_window_counterexample:
  "(0::real) \<le> 1 / 2 \<and> (1::real) / 2 < 1
   \<and> randomTopHeight lowWindow (1 / 2) = 50
   \<and> \<not> (60 \<le> randomTopHeight lowWindow (1 / 2)
         \<and> randomTopHeight lowWindow (1 / 2) < SCREEN_HEIGHT lowWindow - 200)"
  by (simp add: randomTopHeight_def lowWindow_def)

subsection \<open>C8: the rectangle test\<close>

text \<open>
  C8. For well-formed rectangles, \<open>intersects\<close> holds exactly when neither rectangle is
  strictly left of, right of, above or below the other, which is exactly when the two
  closed rectangles have a point in common; in particular two rectangles that share an
  edge (\<open>x2\<close> of one equal to \<open>x1\<close> of the other, the vertical extents overlapping)
  intersect.
\<close>

theorem intersects_inclusive:
  assumes "wellFormed a" and "wellFormed b"
  shows "(intersects a b \<longleftrightarrow>
            \<not> (strictlyLeftOf a b \<or> strictlyRightOf a b \<or> strictlyAbove a b \<or> strictlyBelow a b))
       \<and> (intersects a b \<longleftrightarrow> (\<exists>px py. covers a px py \<and> covers b px py))
       \<and> (x2 a = x1 b \<and> y1 a \<le> y2 b \<and> y1 b \<le> y2 a \<longrightarrow> intersects a b)"
proof (intro conjI)
  show "intersects a b \<longleftrightarrow>
          \<not> (strictlyLeftOf a b \<or> strictlyRightOf a b \<or> strictlyAbove a b \<or> strictlyBelow a b)"
    by (simp add: intersects_def strictlyLeftOf_def strictlyRightOf_def
        strictlyAbove_def strictlyBelow_def)
  show "intersects a b \<longleftrightarrow> (\<exists>px py. covers a px py \<and> covers b px py)"
  proof
    assume i: "intersects a b"
    have "covers a (max (x1 a) (x1 b)) (max (y1 a) (y1 b))"
      using i assms by (simp add: intersects_def covers_def wellFormed_def)
    moreover have "covers b (max (x1 a) (x1 b)) (max (y1 a) (y1 b))"
      using i assms by (simp add: intersects_def covers_def wellFormed_def)
    ultimately show "\<exists>px py. covers a px py \<and> covers b px py" by blast
  next
    assume "\<exists>px py. covers a px py \<and> covers b px py"
    then obtain px py where "covers a px py" and "covers b px py" by blast
    then show "intersects a b"
      by (auto simp: intersects_def covers_def)
  qed
  show "x2 a = x1 b \<and> y1 a \<le> y2 b \<and> y1 b \<le> y2 a \<longrightarrow> intersects a b"
    using assms by (auto simp: intersects_def wellFormed_def)
qed

theorem intersects_inclusive_witness:
  "wellFormed leftBox \<and> wellFormed rightBox \<and> x2 leftBox = x1 rightBox \<and> intersects leftBox rightBox"
proof -
  have a: "wellFormed leftBox" and b: "wellFormed rightBox"
    by (simp_all add: wellFormed_def leftBox_def rightBox_def)
  have "x2 leftBox = x1 rightBox \<and> y1 leftBox \<le> y2 rightBox \<and> y1 rightBox \<le> y2 leftBox"
    by (simp add: leftBox_def rightBox_def)
  with intersects_inclusive[OF a b] a b show ?thesis by blast
qed

subsection \<open>C9: a configuration with an empty range\<close>

text \<open>
  C9, as the code has it. Nothing checks the configuration. When the range of
  \<open>randomTopHeight\<close> is empty, that is when \<open>SCREEN_HEIGHT - 200 \<le> 60\<close>, the function
  still returns an integer, now above \<open>SCREEN_HEIGHT - 201\<close> and at most 60; the first
  render builds its pipes from it, the first press starts the run, and the ticks of the
  interval are executed.
\<close>

theorem no_configuration_check:
  assumes "\<not> rangeNonEmpty d" and "0 \<le> r" and "r < 1"
  shows "randomTopHeight d r \<in> \<int>
       \<and> SCREEN_HEIGHT d - 201 < randomTopHeight d r \<and> randomTopHeight d r \<le> 60
       \<and> pipes (mount d rnd) = startPipes d rnd 0
       \<and> running (run d rnd [Tap])
       \<and> fire d rnd (run d rnd [Tap]) Tick = tick d rnd 0 (run d rnd [Tap])"
  using randomTopHeight_empty_range[OF assms]
  by (simp add: run_def mount_def startIfNeeded_def)

theorem no_configuration_check_witness:
  "\<not> rangeNonEmpty lowWindow \<and> (0::real) \<le> 1 / 2 \<and> (1::real) / 2 < 1
   \<and> randomTopHeight lowWindow (1 / 2) \<le> 60
   \<and> running (run lowWindow rndHalf [Tap])"
proof -
  have a: "\<not> rangeNonEmpty lowWindow" by (simp add: rangeNonEmpty_def lowWindow_def)
  have b: "(0::real) \<le> 1 / 2" and c: "(1::real) / 2 < 1" by simp_all
  from no_configuration_check[OF a b c, of rndHalf] a show ?thesis by simp
qed

text \<open>
  C9 as the specification words it, with a configuration error and no simulation, fails
  in a window 240 points high, whose range is empty: after a press and a tick the game is
  running, and its pipes, of height 50, have moved by \<open>PIPE_SPEED\<close>.
\<close>

theorem configuration_error_counterexample:
  "\<not> rangeNonEmpty lowWindow
   \<and> running (run lowWindow rndHalf [Tap, Tick])
   \<and> pipes (run lowWindow rndHalf [Tap, Tick]) =
        [\<lparr>pipe_x = 2084 / 5, topHeight = 50, scored = False\<rparr>,
         \<lparr>pipe_x = 3044 / 5, topHeight = 50, scored = False\<rparr>]"
  unfolding run_lowWindow_Tap_Tick by (simp add: rangeNonEmpty_def lowWindow_def)

subsection \<open>C10: the best score never decreases\<close>

text \<open>
  C10. The best score never decreases: \<open>resetGame\<close> and \<open>startIfNeeded\<close> leave it as
  it is, \<open>triggerGameOver\<close> replaces it by a value at least as large, a tick never
  lowers it and leaves it as it is unless it ends the game, and so no sequence of events
  lowers it.
\<close>

theorem best_never_decreases:
  "best (resetGame d rnd st) = best st
   \<and> best (startIfNeeded st) = best st
   \<and> best st \<le> best (triggerGameOver s st)
   \<and> best st \<le> best (tick d rnd s st)
   \<and> (\<not> gameOver (tick d rnd s st) \<longrightarrow> best (tick d rnd s st) = best st)
   \<and> best st \<le> best (foldl (fire d rnd) st es)"
proof -
  have r: "best (resetGame d rnd t) = best t" for t by (simp add: resetGame_def)
  have t: "best (startIfNeeded t) = best t" for t by (simp add: startIfNeeded_def Let_def)
  have g: "best t \<le> best (triggerGameOver s' t)" for s' t by (simp add: triggerGameOver_def)
  have k: "best t \<le> best (tick d rnd s' t) \<and> (\<not> gameOver (tick d rnd s' t) \<longrightarrow> best (tick d rnd s' t) = best t)" for s' t
  proof (cases "floorHit d t")
    case True
    then show ?thesis by (simp add: tick_floor triggerGameOver_def)
  next
    case False
    then show ?thesis by (simp add: tick_no_floor triggerGameOver_def afterPasses_def)
  qed
  have f: "best t \<le> best (fire d rnd t e)" for t e
    by (cases e) (simp_all add: r t k split: option.splits)
  have "best st \<le> best (foldl (fire d rnd) u es)" if "best st \<le> best u" for u
    using that
  proof (induction es arbitrary: u)
    case Nil
    then show ?case by simp
  next
    case (Cons e es)
    have "best st \<le> best (fire d rnd u e)" using Cons.prems f[of u e] by (rule order_trans)
    then show ?case using Cons.IH by simp
  qed
  then have "best st \<le> best (foldl (fire d rnd) st es)" by simp
  then show ?thesis using r t g k by simp
qed

theorem best_never_decreases_witness:
  "\<not> gameOver (tick phone rnd0 0 (run phone rnd0 [Tap]))
   \<and> best (tick phone rnd0 0 (run phone rnd0 [Tap])) = best (run phone rnd0 [Tap])"
proof -
  have "\<not> gameOver (tick phone rnd0 0 (run phone rnd0 [Tap]))"
    unfolding run_phone_Tap by (simp add: step_defs consts_defs phone_def rnd0_def)
  with best_never_decreases[of phone rnd0 "run phone rnd0 [Tap]" 0 "[]"] show ?thesis by blast
qed

end
